theory Spec2Isabelle
  imports Main
begin

section \<open>Data model (types.ts)\<close>

text \<open>
  The records follow the interfaces of \<^verbatim>\<open>src/types.ts\<close>. Field names that would clash
  with each other or with a constant of HOL carry a suffix (\<open>id_p\<close>, \<open>name_p\<close>, ...).
  Quantities are the integers of the data model (a JavaScript \<^verbatim>\<open>number\<close> holding an
  integer stock level). Identifiers generated by the store (product and submission ids)
  are opaque and modelled as natural numbers; the time stamps \<^verbatim>\<open>created_at\<close> and
  \<^verbatim>\<open>updated_at\<close>, which the store fills in and no operation below reads, are left out.
  Strings are ASCII: accented letters of the French messages are written without accent.
\<close>

datatype Role = Admin | Depot

datatype UserStatus = Active | Pending | Inactive | Rejected

record User =
  id_u :: string
  firstName :: string
  lastName :: string
  email :: string
  service :: string
  phone :: string
  role :: Role
  status_u :: UserStatus

datatype ChangeType =
  Initial | Update | Correction | Import | Submission | Consumption
  | Admin_entry | Admin_exit | Inventory_count

text \<open>A ledger row as it is handed to the store: \<^verbatim>\<open>Omit<StockMovement, 'id' | 'created_at'>\<close>.\<close>

record StockMovement =
  product_id :: nat
  product_name :: string
  user_id :: string
  user_name :: string
  change_type :: ChangeType
  quantity_change :: int
  old_stock_level :: int
  new_stock_level :: int
  transaction_ref :: string

record Product =
  id_p :: nat
  name_p :: string
  code_p :: string
  cas :: string
  formula :: string
  location :: string
  stock :: int
  unit_p :: string
  alertThreshold :: int
  imageUrl :: "string option"
  safetySheetUrl :: "string option"
  ghsPictograms :: "string list"
  expiryDate :: string

record InventoryItem =
  productId :: nat
  name_i :: string
  quantity :: int

datatype SubmissionStatus = pending | approved | rejected

record InventorySubmission =
  id_s :: nat
  depotId :: string
  depotName :: string
  items :: "InventoryItem list"
  status_s :: SubmissionStatus

record ChatMessage =
  sender_id :: string
  sender_name :: string
  conversation_id :: string
  content :: string


section \<open>The persistent store\<close>

text \<open>
  The hosted database is an external collaborator. It is modelled as a record of its
  tables together with the list of requests it has received, in the order in which it
  processed them. Every request may fail (network or database error): each primitive
  takes a \<open>fault\<close>, \<open>None\<close> when the store executes the request and \<open>Some e\<close> when the
  request fails with error \<open>e\<close> and leaves the tables as they were. As in the client
  library, a failed request is reported in the \<^verbatim>\<open>error\<close> field of the result and is not
  thrown.
\<close>

datatype error =
  PostgrestError string
  | Error string
  | ApprovalError string error

type_synonym fault = "error option"

datatype request =
  SelectProductById nat
  | SelectProductByCodeLocation string string
  | InsertProduct Product
  | UpdateProduct Product
  | UpdateProductStock nat int
  | InsertStockMovement StockMovement
  | UpdateSubmissionStatus nat SubmissionStatus
  | InsertSubmission string string "InventoryItem list" SubmissionStatus
  | InsertChatMessage ChatMessage

record store =
  products :: "Product list"
  stock_movements :: "StockMovement list"
  inventory_submissions :: "InventorySubmission list"
  chat_messages :: "ChatMessage list"
  requests :: "request list"

definition received :: "request \<Rightarrow> store \<Rightarrow> store" where
  "received r s = s\<lparr>requests := requests s @ [r]\<rparr>"

text \<open>
  \<^verbatim>\<open>.single()\<close>: the one selected row, or the error with code \<^verbatim>\<open>PGRST116\<close> when the
  selection holds no row or more than one.
\<close>

definition single :: "'a list \<Rightarrow> error + 'a" where
  "single rows = (case rows of [r] \<Rightarrow> Inr r | _ \<Rightarrow> Inl (PostgrestError ''PGRST116''))"

text \<open>\<^verbatim>\<open>from('products').select(..).eq('id', pid).single()\<close>\<close>

definition select_product_by_id :: "fault \<Rightarrow> nat \<Rightarrow> store \<Rightarrow> (error + Product) \<times> store" where
  "select_product_by_id flt pid s =
     (case flt of
        Some e \<Rightarrow> (Inl e, received (SelectProductById pid) s)
      | None \<Rightarrow> (single (filter (\<lambda>p. id_p p = pid) (products s)),
                 received (SelectProductById pid) s))"

text \<open>\<^verbatim>\<open>from('products').select('*').eq('code', c).eq('location', l).single()\<close>\<close>

definition select_product_by_code_location ::
  "fault \<Rightarrow> string \<Rightarrow> string \<Rightarrow> store \<Rightarrow> (error + Product) \<times> store" where
  "select_product_by_code_location flt c l s =
     (case flt of
        Some e \<Rightarrow> (Inl e, received (SelectProductByCodeLocation c l) s)
      | None \<Rightarrow> (single (filter (\<lambda>p. code_p p = c \<and> location p = l) (products s)),
                 received (SelectProductByCodeLocation c l) s))"

text \<open>The store assigns a new row an identifier that no row carries yet.\<close>

definition fresh_id :: "Product list \<Rightarrow> nat" where
  "fresh_id ps = Suc (fold max (map id_p ps) 0)"

text \<open>\<^verbatim>\<open>from('products').insert({..}).select().single()\<close>\<close>

definition insert_product :: "fault \<Rightarrow> Product \<Rightarrow> store \<Rightarrow> (error + Product) \<times> store" where
  "insert_product flt p s =
     (case flt of
        Some e \<Rightarrow> (Inl e, received (InsertProduct p) s)
      | None \<Rightarrow>
          (let row = p\<lparr>id_p := fresh_id (products s)\<rparr>
           in (Inr row, received (InsertProduct p) (s\<lparr>products := products s @ [row]\<rparr>))))"

text \<open>\<^verbatim>\<open>from('products').update({..all columns..}).eq('id', p.id).select().single()\<close>\<close>

definition update_product :: "fault \<Rightarrow> Product \<Rightarrow> store \<Rightarrow> (error + Product) \<times> store" where
  "update_product flt p s =
     (case flt of
        Some e \<Rightarrow> (Inl e, received (UpdateProduct p) s)
      | None \<Rightarrow>
          (let ps = map (\<lambda>q. if id_p q = id_p p then p else q) (products s)
           in (single (filter (\<lambda>q. id_p q = id_p p) ps),
               received (UpdateProduct p) (s\<lparr>products := ps\<rparr>))))"

text \<open>\<^verbatim>\<open>from('products').update({ stock: n }).eq('id', pid)\<close>\<close>

definition update_product_stock :: "fault \<Rightarrow> nat \<Rightarrow> int \<Rightarrow> store \<Rightarrow> error option \<times> store" where
  "update_product_stock flt pid n s =
     (case flt of
        Some e \<Rightarrow> (Some e, received (UpdateProductStock pid n) s)
      | None \<Rightarrow>
          (None, received (UpdateProductStock pid n)
             (s\<lparr>products := map (\<lambda>q. if id_p q = pid then q\<lparr>stock := n\<rparr> else q) (products s)\<rparr>)))"

text \<open>\<^verbatim>\<open>from('stock_movements').insert(movement)\<close>\<close>

definition addStockMovement :: "fault \<Rightarrow> StockMovement \<Rightarrow> store \<Rightarrow> error option \<times> store" where
  "addStockMovement flt movement s =
     (case flt of
        Some e \<Rightarrow> (Some e, received (InsertStockMovement movement) s)
      | None \<Rightarrow>
          (None, received (InsertStockMovement movement)
             (s\<lparr>stock_movements := stock_movements s @ [movement]\<rparr>)))"

text \<open>\<^verbatim>\<open>from('inventory_submissions').update({ status }).eq('id', submissionId)\<close>\<close>

definition updateSubmissionStatus ::
  "fault \<Rightarrow> nat \<Rightarrow> SubmissionStatus \<Rightarrow> store \<Rightarrow> error option \<times> store" where
  "updateSubmissionStatus flt submissionId st s =
     (case flt of
        Some e \<Rightarrow> (Some e, received (UpdateSubmissionStatus submissionId st) s)
      | None \<Rightarrow>
          (None, received (UpdateSubmissionStatus submissionId st)
             (s\<lparr>inventory_submissions :=
                  map (\<lambda>x. if id_s x = submissionId then x\<lparr>status_s := st\<rparr> else x)
                    (inventory_submissions s)\<rparr>)))"


section \<open>Transaction references\<close>

text \<open>
  \<^verbatim>\<open>`${prefix.toUpperCase()}-${Date.now()}`\<close>. The clock value \<open>now\<close> (milliseconds since
  the epoch) is a parameter of every operation that generates a reference; each of them
  reads the clock once. \<open>toUpperCase\<close> is modelled on ASCII letters.
\<close>

definition toUpperCase_char :: "char \<Rightarrow> char" where
  "toUpperCase_char c =
     (let n = (of_char c :: nat) in if 97 \<le> n \<and> n \<le> 122 then char_of (n - 32) else c)"

definition toUpperCase :: "string \<Rightarrow> string" where
  "toUpperCase str = map toUpperCase_char str"

fun decimal :: "nat \<Rightarrow> string" where
  "decimal n =
     (if n < 10 then [''0123456789'' ! n]
      else decimal (n div 10) @ [''0123456789'' ! (n mod 10)])"

declare decimal.simps [simp del]

definition generateTransactionRef :: "string \<Rightarrow> nat \<Rightarrow> string" where
  "generateTransactionRef prefix now = toUpperCase prefix @ ''-'' @ decimal now"

definition full_name :: "User \<Rightarrow> string" where
  "full_name user = firstName user @ '' '' @ lastName user"


section \<open>Stock mutations of one product (dataService.ts)\<close>

definition addProduct ::
  "fault \<Rightarrow> fault \<Rightarrow> nat \<Rightarrow> Product \<Rightarrow> User \<Rightarrow> store \<Rightarrow> (error + Product) \<times> store" where
  "addProduct f_insert f_ledger now product user s =
     (case insert_product f_insert product s of
        (Inr data, s1) \<Rightarrow>
          (let (_, s2) = addStockMovement f_ledger
                 \<lparr>product_id = id_p data,
                  product_name = name_p data,
                  user_id = id_u user,
                  user_name = full_name user,
                  change_type = Initial,
                  quantity_change = stock data,
                  old_stock_level = 0,
                  new_stock_level = stock data,
                  transaction_ref = generateTransactionRef ''CRE'' now\<rparr> s1
           in (Inr data, s2))
      | (Inl e, s1) \<Rightarrow> (Inl e, s1))"

definition updateProduct ::
  "fault \<Rightarrow> fault \<Rightarrow> fault \<Rightarrow> nat \<Rightarrow> Product \<Rightarrow> User \<Rightarrow> store \<Rightarrow> (error + Product) \<times> store" where
  "updateProduct f_fetch f_update f_ledger now product user s =
     (case select_product_by_id f_fetch (id_p product) s of
        (Inl fetchError, s1) \<Rightarrow> (Inl fetchError, s1)
      | (Inr originalProduct, s1) \<Rightarrow>
          (let oldStock = stock originalProduct;
               quantityChange = stock product - oldStock
           in case update_product f_update product s1 of
                (Inr data, s2) \<Rightarrow>
                  if quantityChange \<noteq> 0 then
                    (let (_, s3) = addStockMovement f_ledger
                           \<lparr>product_id = id_p data,
                            product_name = name_p data,
                            user_id = id_u user,
                            user_name = full_name user,
                            change_type = Update,
                            quantity_change = quantityChange,
                            old_stock_level = oldStock,
                            new_stock_level = stock data,
                            transaction_ref = generateTransactionRef ''MAJ'' now\<rparr> s2
                     in (Inr data, s3))
                  else (Inr data, s2)
              | (Inl e, s2) \<Rightarrow> (Inl e, s2)))"

text \<open>
  \<open>depotRecordConsumption\<close> takes the old stock from the product object the caller
  holds, not from the store. A thrown error is caught and returned.
\<close>

definition depotRecordConsumption ::
  "fault \<Rightarrow> fault \<Rightarrow> nat \<Rightarrow> Product \<Rightarrow> int \<Rightarrow> User \<Rightarrow> store \<Rightarrow> error option \<times> store" where
  "depotRecordConsumption f_update f_ledger now product qty user s =
     (let oldStock = stock product;
          newStock = oldStock - qty
      in if newStock < 0 then
           (Some (Error ''La quantite consommee ne peut pas depasser le stock disponible.''), s)
         else
           (case update_product_stock f_update (id_p product) newStock s of
              (Some updateError, s1) \<Rightarrow> (Some updateError, s1)
            | (None, s1) \<Rightarrow>
                (let (_, s2) = addStockMovement f_ledger
                       \<lparr>product_id = id_p product,
                        product_name = name_p product,
                        user_id = id_u user,
                        user_name = full_name user,
                        change_type = Consumption,
                        quantity_change = - qty,
                        old_stock_level = oldStock,
                        new_stock_level = newStock,
                        transaction_ref = generateTransactionRef ''CON'' now\<rparr> s1
                 in (None, s2))))"

datatype MovementType = admin_entry | admin_exit

definition movement_change_type :: "MovementType \<Rightarrow> ChangeType" where
  "movement_change_type m = (case m of admin_entry \<Rightarrow> Admin_entry | admin_exit \<Rightarrow> Admin_exit)"

definition adminCreateMovement ::
  "fault \<Rightarrow> fault \<Rightarrow> fault \<Rightarrow> nat \<Rightarrow> nat \<Rightarrow> int \<Rightarrow> MovementType \<Rightarrow> User \<Rightarrow> store
     \<Rightarrow> error option \<times> store" where
  "adminCreateMovement f_fetch f_update f_ledger now pid qty movementType adminUser s =
     (case select_product_by_id f_fetch pid s of
        (Inl fetchError, s1) \<Rightarrow> (Some (Error ''Produit introuvable.''), s1)
      | (Inr product, s1) \<Rightarrow>
          (let oldStock = stock product;
               quantityChange = (if movementType = admin_entry then qty else - qty);
               newStock = oldStock + quantityChange
           in if newStock < 0 then (Some (Error ''Le stock ne peut pas etre negatif.''), s1)
              else
                (case update_product_stock f_update pid newStock s1 of
                   (Some updateError, s2) \<Rightarrow> (Some updateError, s2)
                 | (None, s2) \<Rightarrow>
                     (let refPrefix = (if movementType = admin_entry then ''ENT'' else ''SOR'');
                          (_, s3) = addStockMovement f_ledger
                            \<lparr>product_id = id_p product,
                             product_name = name_p product,
                             user_id = id_u adminUser,
                             user_name = full_name adminUser,
                             change_type = movement_change_type movementType,
                             quantity_change = quantityChange,
                             old_stock_level = oldStock,
                             new_stock_level = newStock,
                             transaction_ref = generateTransactionRef refPrefix now\<rparr> s2
                      in (None, s3)))))"


section \<open>Promises settled in any order\<close>

text \<open>
  \<open>approveSubmission\<close> and \<open>setDepotInventory\<close> start one chain of store requests per
  item and join the chains with \<^verbatim>\<open>Promise.all\<close>. The requests of one chain reach the store
  in order, the requests of different chains in any order. A chain is modelled by the
  request it is waiting for (\<open>Waiting\<close>) until it is fulfilled or rejected; a schedule, a
  list of chain numbers, says whose pending request the store processes next. After the
  schedule, \<open>settle\<close> lets every chain that is still waiting run to its end (a chain
  sends at most three requests), so that every order of the requests is the run of some
  schedule and every run ends with all chains settled.
\<close>

datatype 'a promise = Waiting 'a | Fulfilled | RejectedWith error

record 'a pool =
  db :: store
  chains :: "'a promise list"
  all_rejected :: "error option"

definition settle :: "nat \<Rightarrow> nat list" where
  "settle n = concat (replicate 3 [0..<n])"

text \<open>
  \<^verbatim>\<open>Promise.all\<close> rejects with the first rejection it observes. \<open>joined\<close> tells whether
  \<^verbatim>\<open>Promise.all\<close> has been called yet; when it is called on chains already rejected, the
  first of them in list order is observed first.
\<close>

fun first_rejected :: "'a promise list \<Rightarrow> error option" where
  "first_rejected [] = None"
| "first_rejected (RejectedWith e # cs) = Some e"
| "first_rejected (_ # cs) = first_rejected cs"

definition observe :: "bool \<Rightarrow> 'a pool \<Rightarrow> 'a pool" where
  "observe joined p =
     (if joined \<and> all_rejected p = None then p\<lparr>all_rejected := first_rejected (chains p)\<rparr>
      else p)"


section \<open>Submission approval (dataService.ts)\<close>

datatype approve_request =
  SelectStock
  | WriteStock int
  | LogMovement int

record item_faults =
  f_select :: fault
  f_write :: fault
  f_log :: fault

text \<open>
  One request of the chain of \<open>item\<close> is processed by the store and the chain's
  continuation runs. \<open>WriteStock oldStock\<close> and \<open>LogMovement oldStock\<close> carry the stock
  that the select returned. The result of \<open>addStockMovement\<close> is the value the chain is
  fulfilled with; nobody reads it.
\<close>

definition approve_item_step ::
  "User \<Rightarrow> string \<Rightarrow> item_faults \<Rightarrow> InventoryItem \<Rightarrow> approve_request promise \<Rightarrow> store
     \<Rightarrow> approve_request promise \<times> store" where
  "approve_item_step adminUser tref flt item c s =
     (case c of
        Waiting SelectStock \<Rightarrow>
          (case select_product_by_id (f_select flt) (productId item) s of
             (Inl e, s1) \<Rightarrow> (RejectedWith e, s1)
           | (Inr res, s1) \<Rightarrow> (Waiting (WriteStock (stock res)), s1))
      | Waiting (WriteStock oldStock) \<Rightarrow>
          (let newStock = quantity item
           in case update_product_stock (f_write flt) (productId item) newStock s of
                (Some e, s1) \<Rightarrow> (RejectedWith e, s1)
              | (None, s1) \<Rightarrow> (Waiting (LogMovement oldStock), s1))
      | Waiting (LogMovement oldStock) \<Rightarrow>
          (let newStock = quantity item;
               quantityChange = newStock - oldStock;
               (_, s1) = addStockMovement (f_log flt)
                 \<lparr>product_id = productId item,
                  product_name = name_i item,
                  user_id = id_u adminUser,
                  user_name = full_name adminUser @ '' (Approbation)'',
                  change_type = Submission,
                  quantity_change = quantityChange,
                  old_stock_level = oldStock,
                  new_stock_level = newStock,
                  transaction_ref = tref\<rparr> s
           in (Fulfilled, s1))
      | Fulfilled \<Rightarrow> (Fulfilled, s)
      | RejectedWith e \<Rightarrow> (RejectedWith e, s))"

definition approve_step ::
  "User \<Rightarrow> string \<Rightarrow> (nat \<Rightarrow> item_faults) \<Rightarrow> InventoryItem list \<Rightarrow> nat
     \<Rightarrow> approve_request pool \<Rightarrow> approve_request pool" where
  "approve_step adminUser tref flts its i p =
     (if i < length its \<and> i < length (chains p) then
        (let (c, s) = approve_item_step adminUser tref (flts i) (its ! i)
                        (chains p ! i) (db p)
         in observe True (p\<lparr>db := s, chains := (chains p)[i := c]\<rparr>))
      else p)"

record approve_faults =
  f_status :: fault
  f_item :: "nat \<Rightarrow> item_faults"
  f_revert :: fault

text \<open>
  The store returned is the one reached when every chain has settled: \<^verbatim>\<open>Promise.all\<close>
  cancels nothing, so the chains still waiting at the first rejection send their
  remaining requests all the same. The request that puts the status back to
  \<^verbatim>\<open>pending\<close> writes the submissions table only, which no chain reads or writes; it is
  placed after the chains' requests.
\<close>

definition approve_chains ::
  "nat list \<Rightarrow> User \<Rightarrow> string \<Rightarrow> (nat \<Rightarrow> item_faults) \<Rightarrow> InventoryItem list \<Rightarrow> store
     \<Rightarrow> approve_request pool" where
  "approve_chains schedule adminUser tref flts its s =
     fold (approve_step adminUser tref flts its) (schedule @ settle (length its))
       \<lparr>db = s, chains = map (\<lambda>item. Waiting SelectStock) its, all_rejected = None\<rparr>"

definition approveSubmission ::
  "nat list \<Rightarrow> approve_faults \<Rightarrow> nat \<Rightarrow> InventorySubmission \<Rightarrow> User \<Rightarrow> store
     \<Rightarrow> error option \<times> store" where
  "approveSubmission schedule flts now sub adminUser s =
     (case updateSubmissionStatus (f_status flts) (id_s sub) approved s of
        (Some statusError, s1) \<Rightarrow> (Some statusError, s1)
      | (None, s1) \<Rightarrow>
          (let tref = generateTransactionRef ''INV'' now;
               p = approve_chains schedule adminUser tref (f_item flts) (items sub) s1
           in case all_rejected p of
                None \<Rightarrow> (None, db p)
              | Some e \<Rightarrow>
                  (let (_, s2) = updateSubmissionStatus (f_revert flts) (id_s sub) pending (db p)
                   in (Some (ApprovalError
                        (''Une erreur est survenue lors de la mise a jour des stocks. '' @
                         ''La soumission a ete remise en attente.'') e), s2))))"


section \<open>Bulk inventory of a depot (dataService.ts)\<close>

datatype inventory_request =
  FindExisting
  | WriteCount Product
  | CreateProduct
  | LogRow StockMovement

record pair_faults =
  g_find :: fault
  g_write :: fault
  g_log :: fault

definition error_code :: "error \<Rightarrow> string option" where
  "error_code e = (case e of PostgrestError c \<Rightarrow> Some c | _ \<Rightarrow> None)"

text \<open>
  One request for the pair \<open>(product, newStock)\<close> is processed. \<open>FindExisting\<close> is the
  lookup the loop awaits; on an error other than \<^verbatim>\<open>PGRST116\<close> the loop continues with the
  next pair and this pair has no promise (\<open>Fulfilled\<close>, as for a pair with nothing to
  do). \<open>WriteCount existingProduct\<close> is the update of the row found, whose result the
  chain does not inspect; \<open>CreateProduct\<close> is the insert of the new row, which rejects
  the chain when it fails; \<open>LogRow\<close> is the ledger insert that either of them sends next.
  The insert names every column but \<^verbatim>\<open>image_url\<close> and \<^verbatim>\<open>safety_sheet_url\<close>, which stay empty.
\<close>

definition inventory_item_step ::
  "User \<Rightarrow> string \<Rightarrow> string \<Rightarrow> pair_faults \<Rightarrow> Product \<times> int \<Rightarrow> inventory_request promise \<Rightarrow> store
     \<Rightarrow> inventory_request promise \<times> store" where
  "inventory_item_step adminUser tref depot flt item c s =
     (let product = fst item; newStock = snd item in
      case c of
        Waiting FindExisting \<Rightarrow>
          (case select_product_by_code_location (g_find flt) (code_p product) depot s of
             (Inl findError, s1) \<Rightarrow>
               if error_code findError \<noteq> Some ''PGRST116'' then (Fulfilled, s1)
               else if newStock > 0 then (Waiting CreateProduct, s1)
               else (Fulfilled, s1)
           | (Inr existingProduct, s1) \<Rightarrow>
               if stock existingProduct \<noteq> newStock then (Waiting (WriteCount existingProduct), s1)
               else (Fulfilled, s1))
      | Waiting (WriteCount existingProduct) \<Rightarrow>
          (let oldStock = stock existingProduct;
               (_, s1) = update_product_stock (g_write flt) (id_p existingProduct) newStock s
           in (Waiting (LogRow
                 \<lparr>product_id = id_p existingProduct,
                  product_name = name_p existingProduct,
                  user_id = id_u adminUser,
                  user_name = full_name adminUser,
                  change_type = Inventory_count,
                  quantity_change = newStock - oldStock,
                  old_stock_level = oldStock,
                  new_stock_level = newStock,
                  transaction_ref = tref\<rparr>), s1))
      | Waiting CreateProduct \<Rightarrow>
          (case insert_product (g_write flt)
                  (product\<lparr>location := depot, stock := newStock,
                     imageUrl := None, safetySheetUrl := None\<rparr>) s of
             (Inl e, s1) \<Rightarrow> (RejectedWith e, s1)
           | (Inr data, s1) \<Rightarrow>
               (Waiting (LogRow
                  \<lparr>product_id = id_p data,
                   product_name = name_p data,
                   user_id = id_u adminUser,
                   user_name = full_name adminUser,
                   change_type = Initial,
                   quantity_change = newStock,
                   old_stock_level = 0,
                   new_stock_level = newStock,
                   transaction_ref = tref\<rparr>), s1))
      | Waiting (LogRow movement) \<Rightarrow>
          (let (_, s1) = addStockMovement (g_log flt) movement s in (Fulfilled, s1))
      | Fulfilled \<Rightarrow> (Fulfilled, s)
      | RejectedWith e \<Rightarrow> (RejectedWith e, s))"

text \<open>
  The loop awaits the lookups one after the other: the lookup of a pair is sent only
  when the lookups of all earlier pairs have been answered. \<^verbatim>\<open>Promise.all\<close> is called
  when the loop ends, that is when no lookup is outstanding.
\<close>

definition looked_up :: "inventory_request promise list \<Rightarrow> bool" where
  "looked_up cs = list_all (\<lambda>c. c \<noteq> Waiting FindExisting) cs"

definition inventory_step ::
  "User \<Rightarrow> string \<Rightarrow> string \<Rightarrow> (nat \<Rightarrow> pair_faults) \<Rightarrow> (Product \<times> int) list \<Rightarrow> nat
     \<Rightarrow> inventory_request pool \<Rightarrow> inventory_request pool" where
  "inventory_step adminUser tref depot flts inventory i p =
     (if i < length inventory \<and> i < length (chains p) \<and>
         (if chains p ! i = Waiting FindExisting then looked_up (take i (chains p)) else True)
      then
        (let (c, s) = inventory_item_step adminUser tref depot (flts i) (inventory ! i)
                        (chains p ! i) (db p);
             cs = (chains p)[i := c]
         in observe (looked_up cs) (p\<lparr>db := s, chains := cs\<rparr>))
      else p)"

definition inventory_chains ::
  "nat list \<Rightarrow> User \<Rightarrow> string \<Rightarrow> string \<Rightarrow> (nat \<Rightarrow> pair_faults) \<Rightarrow> (Product \<times> int) list
     \<Rightarrow> store \<Rightarrow> inventory_request pool" where
  "inventory_chains schedule adminUser tref depot flts inventory s =
     fold (inventory_step adminUser tref depot flts inventory)
       (schedule @ settle (length inventory))
       \<lparr>db = s, chains = map (\<lambda>item. Waiting FindExisting) inventory, all_rejected = None\<rparr>"

definition setDepotInventory ::
  "nat list \<Rightarrow> (nat \<Rightarrow> pair_faults) \<Rightarrow> nat \<Rightarrow> string \<Rightarrow> (Product \<times> int) list \<Rightarrow> User \<Rightarrow> store
     \<Rightarrow> error option \<times> store" where
  "setDepotInventory schedule flts now depot inventory adminUser s =
     (let tref = generateTransactionRef ''INV'' now;
          p = inventory_chains schedule adminUser tref depot flts inventory s
      in (all_rejected p, db p))"


section \<open>Submitting a depot inventory (DepotInventory component)\<close>



text \<open>
  The component's state is the list of staged items; what it does to the browser (the
  download of the CSV file, the notifications shown) is collected in \<open>effects\<close>. The
  content of the CSV file is not modelled, only that the download of the staged items
  takes place.
\<close>

datatype notification_type = success | failure | info








section \<open>Properties of the ledger and worked examples\<close>

text \<open>The arithmetic that every ledger row has to satisfy.\<close>

definition ledger_arithmetic :: "StockMovement \<Rightarrow> bool" where
  "ledger_arithmetic r \<longleftrightarrow> new_stock_level r = old_stock_level r + quantity_change r"

text \<open>
  The rows that an operation has added to the ledger of \<open>s\<close> when it ends in \<open>s'\<close>, and
  the statement that it has done nothing else to the ledger than add rows that satisfy \<open>P\<close>.
\<close>

definition appended :: "store \<Rightarrow> store \<Rightarrow> StockMovement list" where
  "appended s s' = drop (length (stock_movements s)) (stock_movements s')"

definition ledger_extends :: "(StockMovement \<Rightarrow> bool) \<Rightarrow> store \<Rightarrow> store \<Rightarrow> bool" where
  "ledger_extends P s s' \<longleftrightarrow>
     take (length (stock_movements s)) (stock_movements s') = stock_movements s \<and>
     list_all P (appended s s')"

definition product_rows :: "nat \<Rightarrow> store \<Rightarrow> Product list" where
  "product_rows pid s = filter (\<lambda>p. id_p p = pid) (products s)"


text \<open>The number that a string of decimal digits denotes.\<close>

definition decimal_value :: "string \<Rightarrow> nat" where
  "decimal_value str = foldl (\<lambda>a c. 10 * a + (of_char c - 48)) 0 str"


fun inventory_rank :: "inventory_request promise \<Rightarrow> nat" where
  "inventory_rank (Waiting FindExisting) = 3"
| "inventory_rank (Waiting (WriteCount existingProduct)) = 2"
| "inventory_rank (Waiting CreateProduct) = 2"
| "inventory_rank (Waiting (LogRow movement)) = 1"
| "inventory_rank Fulfilled = 0"
| "inventory_rank (RejectedWith e) = 0"




definition ledger_rows_of :: "nat \<Rightarrow> store \<Rightarrow> store \<Rightarrow> StockMovement list" where
  "ledger_rows_of pid s s' = filter (\<lambda>r. product_id r = pid) (appended s s')"

text \<open>
  For the bulk inventory of a depot: the rows of the product with code \<open>c\<close> at the depot,
  the row that the inventory creates for a product that the depot does not have yet, and
  the ledger row that goes with it. \<open>k\<close> is the identifier that the store gives the new
  row.
\<close>

definition at_depot :: "string \<Rightarrow> string \<Rightarrow> Product \<Rightarrow> bool" where
  "at_depot c depot q \<longleftrightarrow> code_p q = c \<and> location q = depot"

definition depot_rows :: "string \<Rightarrow> string \<Rightarrow> store \<Rightarrow> Product list" where
  "depot_rows c depot s = filter (at_depot c depot) (products s)"

definition new_product_row :: "Product \<Rightarrow> string \<Rightarrow> int \<Rightarrow> nat \<Rightarrow> Product" where
  "new_product_row product depot n k =
     product\<lparr>id_p := k, location := depot, stock := n, imageUrl := None, safetySheetUrl := None\<rparr>"

definition initial_row :: "User \<Rightarrow> string \<Rightarrow> Product \<Rightarrow> int \<Rightarrow> nat \<Rightarrow> StockMovement" where
  "initial_row adminUser tref product n k =
     \<lparr>product_id = k,
      product_name = name_p product,
      user_id = id_u adminUser,
      user_name = firstName adminUser @ '' '' @ lastName adminUser,
      change_type = Initial,
      quantity_change = n,
      old_stock_level = 0,
      new_stock_level = n,
      transaction_ref = tref\<rparr>"

text \<open>
  \<open>x\<close> identifies a row that is not the product \<open>c\<close> at the depot; the rows of \<open>c\<close> at the
  depot share no identifier with the other rows; what the chain of another pair is about
  to write concerns such a row; and the progress of the chain of the pair \<open>(product, n)\<close>
  whose product the depot does not have when the call starts in \<open>s0\<close>.
\<close>

definition elsewhere :: "string \<Rightarrow> string \<Rightarrow> store \<Rightarrow> nat \<Rightarrow> bool" where
  "elsewhere c depot s x \<longleftrightarrow> (\<exists>q\<in>set (products s). id_p q = x \<and> \<not> at_depot c depot q)"

definition ids_apart :: "string \<Rightarrow> string \<Rightarrow> store \<Rightarrow> bool" where
  "ids_apart c depot s \<longleftrightarrow>
     (\<forall>q\<in>set (products s). \<forall>q'\<in>set (products s).
        at_depot c depot q \<longrightarrow> \<not> at_depot c depot q' \<longrightarrow> id_p q \<noteq> id_p q')"

definition pending_elsewhere ::
  "string \<Rightarrow> string \<Rightarrow> inventory_request promise \<Rightarrow> store \<Rightarrow> bool" where
  "pending_elsewhere c depot ch s =
     (case ch of
        Waiting (WriteCount existingProduct) \<Rightarrow> elsewhere c depot s (id_p existingProduct)
      | Waiting (LogRow movement) \<Rightarrow> elsewhere c depot s (product_id movement)
      | _ \<Rightarrow> True)"

definition pair_state ::
  "User \<Rightarrow> string \<Rightarrow> string \<Rightarrow> Product \<Rightarrow> int \<Rightarrow> store \<Rightarrow> inventory_request promise \<Rightarrow> store
     \<Rightarrow> bool" where
  "pair_state adminUser tref depot product n s0 ch s =
     (case ch of
        Waiting FindExisting \<Rightarrow>
          depot_rows (code_p product) depot s = [] \<and>
          (\<forall>r\<in>set (appended s0 s). elsewhere (code_p product) depot s (product_id r))
      | Waiting CreateProduct \<Rightarrow>
          depot_rows (code_p product) depot s = [] \<and>
          (\<forall>r\<in>set (appended s0 s). elsewhere (code_p product) depot s (product_id r))
      | Waiting (LogRow movement) \<Rightarrow>
          (\<exists>k. depot_rows (code_p product) depot s = [new_product_row product depot n k] \<and>
               k \<notin> id_p ` set (products s0) \<and>
               movement = initial_row adminUser tref product n k \<and>
               ledger_rows_of k s0 s = [])
      | Waiting (WriteCount existingProduct) \<Rightarrow> False
      | Fulfilled \<Rightarrow>
          (\<exists>k. depot_rows (code_p product) depot s = [new_product_row product depot n k] \<and>
               k \<notin> id_p ` set (products s0) \<and>
               ledger_rows_of k s0 s = [initial_row adminUser tref product n k])
      | RejectedWith e \<Rightarrow> False)"

definition no_item_faults :: item_faults where
  "no_item_faults = \<lparr>f_select = None, f_write = None, f_log = None\<rparr>"

definition no_pair_faults :: pair_faults where
  "no_pair_faults = \<lparr>g_find = None, g_write = None, g_log = None\<rparr>"

definition no_approve_faults :: approve_faults where
  "no_approve_faults = \<lparr>f_status = None, f_item = (\<lambda>i. no_item_faults), f_revert = None\<rparr>"

text \<open>An admin, a product with stock 7 kept at depot Labo B, and a store that holds it.\<close>

definition ada :: User where
  "ada = \<lparr>id_u = ''u-1'', firstName = ''Ada'', lastName = ''Lovelace'',
          email = ''101@depot.example'', service = ''Labo A'', phone = '''',
          role = Admin, status_u = Active\<rparr>"

definition ethanol :: Product where
  "ethanol = \<lparr>id_p = 1, name_p = ''Ethanol'', code_p = ''ETH-96'', cas = ''64-17-5'',
              formula = ''C2H6O'', location = ''Labo B'', stock = 7, unit_p = ''L'',
              alertThreshold = 5, imageUrl = Some ''eth.png'', safetySheetUrl = None,
              ghsPictograms = [''GHS02''], expiryDate = ''2027-01-01''\<rparr>"

definition count_15 :: InventorySubmission where
  "count_15 = \<lparr>id_s = 1, depotId = ''101'', depotName = ''Labo B'',
               items = [\<lparr>productId = 1, name_i = ''Ethanol'', quantity = 15\<rparr>],
               status_s = pending\<rparr>"

definition lab :: store where
  "lab = \<lparr>products = [ethanol], stock_movements = [], inventory_submissions = [count_15],
          chat_messages = [], requests = []\<rparr>"




definition net_down :: error where
  "net_down = Error ''Failed to fetch''"





section \<open>The store primitives\<close>

lemma received_simps [simp]:
  "products (received r s) = products s"
  "stock_movements (received r s) = stock_movements s"
  "inventory_submissions (received r s) = inventory_submissions s"
  "chat_messages (received r s) = chat_messages s"
  "requests (received r s) = requests s @ [r]"
  by (simp_all add: received_def)


lemma single_singleton [simp]: "single [r] = Inr r"
  by (simp add: single_def)

lemma select_by_id_found:
  "filter (\<lambda>p. id_p p = pid) (products s) = [r] \<Longrightarrow>
     select_product_by_id None pid s = (Inr r, received (SelectProductById pid) s)"
  by (simp add: select_product_by_id_def)



lemma transaction_ref_upper [simp]:
  "generateTransactionRef ''CRE'' now = ''CRE-'' @ decimal now"
  "generateTransactionRef ''MAJ'' now = ''MAJ-'' @ decimal now"
  "generateTransactionRef ''CON'' now = ''CON-'' @ decimal now"
  "generateTransactionRef ''ENT'' now = ''ENT-'' @ decimal now"
  "generateTransactionRef ''SOR'' now = ''SOR-'' @ decimal now"
  "generateTransactionRef ''INV'' now = ''INV-'' @ decimal now"
  by (simp_all add: generateTransactionRef_def toUpperCase_def toUpperCase_char_def)

lemma decimal_42 [simp]: "decimal 42 = ''42''"
  by (simp add: decimal.simps)

lemma update_stock_ok:
  "update_product_stock None pid n s =
     (None, received (UpdateProductStock pid n)
        (s\<lparr>products := map (\<lambda>q. if id_p q = pid then q\<lparr>stock := n\<rparr> else q) (products s)\<rparr>))"
  by (simp add: update_product_stock_def)

lemma ledger_fault_keeps_store:
  "addStockMovement (Some e) m s = (Some e, received (InsertStockMovement m) s)"
  by (simp add: addStockMovement_def)

lemma digit_code: "d < 10 \<Longrightarrow> (of_char (''0123456789'' ! d) :: nat) = 48 + d"
proof -
  assume "d < 10"
  then have "d \<in> {0, 1, 2, 3, 4, 5, 6, 7, 8, 9}" by auto
  then show ?thesis by auto
qed

lemma decimal_value_snoc: "decimal_value (str @ [c]) = 10 * decimal_value str + (of_char c - 48)"
  by (simp add: decimal_value_def)

lemma decimal_denotes: "decimal_value (decimal n) = n"
proof (induction n rule: decimal.induct)
  case (1 n)
  show ?case
  proof (cases "n < 10")
    case True
    then show ?thesis
      by (subst decimal.simps) (simp add: decimal_value_def digit_code)
  next
    case False
    then have "decimal_value (decimal (n div 10)) = n div 10" using 1 by simp
    with False show ?thesis
      by (subst decimal.simps) (simp add: decimal_value_snoc digit_code)
  qed
qed


section \<open>What the operations add to the ledger\<close>

lemma fold_invariant:
  assumes "I p" and "\<And>i q. I q \<Longrightarrow> I (f i q)"
  shows "I (fold f xs p)"
  using assms(1)
proof (induction xs arbitrary: p)
  case Nil
  then show ?case by simp
next
  case (Cons x xs)
  then show ?case by (simp add: assms(2))
qed

lemma ledger_extends_iff:
  "ledger_extends P s s' \<longleftrightarrow>
     (\<exists>rows. stock_movements s' = stock_movements s @ rows \<and> list_all P rows)"
proof
  assume a: "ledger_extends P s s'"
  have "stock_movements s' =
      take (length (stock_movements s)) (stock_movements s') @ appended s s'"
    by (simp add: appended_def)
  with a show "\<exists>rows. stock_movements s' = stock_movements s @ rows \<and> list_all P rows"
    unfolding ledger_extends_def by metis
next
  assume "\<exists>rows. stock_movements s' = stock_movements s @ rows \<and> list_all P rows"
  then show "ledger_extends P s s'"
    by (auto simp: ledger_extends_def appended_def)
qed

lemma ledger_extends_same:
  "stock_movements s' = stock_movements s \<Longrightarrow> ledger_extends P s s'"
  by (simp add: ledger_extends_iff)

lemma ledger_extends_row:
  "stock_movements s' = stock_movements s @ [m] \<Longrightarrow> P m \<Longrightarrow> ledger_extends P s s'"
  by (simp add: ledger_extends_iff)

lemma ledger_extends_trans:
  assumes "ledger_extends P s s'" and "ledger_extends P s' s''"
  shows "ledger_extends P s s''"
proof -
  from assms obtain r1 r2 where
    "stock_movements s' = stock_movements s @ r1" "list_all P r1"
    "stock_movements s'' = stock_movements s' @ r2" "list_all P r2"
    by (auto simp: ledger_extends_iff)
  then have "stock_movements s'' = stock_movements s @ (r1 @ r2) \<and> list_all P (r1 @ r2)"
    by simp
  then show ?thesis unfolding ledger_extends_iff by blast
qed

lemma ledger_extends_mono:
  assumes "ledger_extends P s s'" and "\<And>r. P r \<Longrightarrow> Q r"
  shows "ledger_extends Q s s'"
  using assms by (auto simp: ledger_extends_iff list_all_iff)

lemma addStockMovement_ledger:
  "stock_movements (snd (addStockMovement flt m s)) =
     stock_movements s @ (if flt = None then [m] else [])"
  by (simp add: addStockMovement_def split: option.splits)

lemma primitives_keep_ledger [simp]:
  "stock_movements (snd (select_product_by_id flt pid s)) = stock_movements s"
  "stock_movements (snd (select_product_by_code_location flt c l s)) = stock_movements s"
  "stock_movements (snd (insert_product flt p s)) = stock_movements s"
  "stock_movements (snd (update_product flt p s)) = stock_movements s"
  "stock_movements (snd (update_product_stock flt pid n s)) = stock_movements s"
  "stock_movements (snd (updateSubmissionStatus flt sid st s)) = stock_movements s"
  by (simp_all add: select_product_by_id_def select_product_by_code_location_def
      insert_product_def update_product_def update_product_stock_def updateSubmissionStatus_def
      Let_def split: option.splits)

lemma addStockMovement_extends:
  "P m \<Longrightarrow> ledger_extends P s (snd (addStockMovement flt m s))"
  by (simp add: ledger_extends_iff addStockMovement_ledger)

lemma update_product_returns:
  assumes "update_product flt product s = (Inr d, s')"
  shows "d = product"
proof -
  from assms have "filter (\<lambda>q. id_p q = id_p product)
       (map (\<lambda>q. if id_p q = id_p product then product else q) (products s)) = [d]"
    by (auto simp: update_product_def single_def Let_def split: option.splits list.splits)
  then have "d \<in> set (filter (\<lambda>q. id_p q = id_p product)
       (map (\<lambda>q. if id_p q = id_p product then product else q) (products s)))"
    by simp
  then show ?thesis by (auto split: if_splits)
qed

text \<open>The rows written by each of the four operations on one product.\<close>

lemma addProduct_rows:
  "ledger_extends
     (\<lambda>r. ledger_arithmetic r \<and> transaction_ref r = ''CRE-'' @ decimal now)
     s (snd (addProduct f_insert f_ledger now product user s))"
proof (cases "insert_product f_insert product s")
  case (Pair res s1)
  then have l: "stock_movements s1 = stock_movements s"
    using primitives_keep_ledger(3) [of f_insert product s] by simp
  show ?thesis
  proof (cases res)
    case (Inl e)
    with Pair l show ?thesis by (simp add: addProduct_def ledger_extends_same)
  next
    case (Inr data)
    with Pair l show ?thesis
      by (simp add: addProduct_def split_beta Let_def ledger_extends_iff
          addStockMovement_ledger ledger_arithmetic_def)
  qed
qed

lemma updateProduct_rows:
  "ledger_extends
     (\<lambda>r. ledger_arithmetic r \<and> transaction_ref r = ''MAJ-'' @ decimal now)
     s (snd (updateProduct f_fetch f_update f_ledger now product user s))"
proof (cases "select_product_by_id f_fetch (id_p product) s")
  case (Pair res s1)
  then have l: "stock_movements s1 = stock_movements s"
    using primitives_keep_ledger(1) [of f_fetch "id_p product" s] by simp
  show ?thesis
  proof (cases res)
    case (Inl e)
    with Pair l show ?thesis by (simp add: updateProduct_def ledger_extends_same)
  next
    case (Inr original)
    obtain res2 s2 where u: "update_product f_update product s1 = (res2, s2)"
      by (cases "update_product f_update product s1")
    then have l2: "stock_movements s2 = stock_movements s"
      using primitives_keep_ledger(4) [of f_update product s1] l by simp
    have data: "res2 = Inr d \<Longrightarrow> stock d = stock product" for d
      using u update_product_returns [of f_update product s1 d s2] by simp
    show ?thesis
    proof (cases res2)
      case (Inl e)
      with Pair Inr u l2 show ?thesis
        by (simp add: updateProduct_def Let_def ledger_extends_same)
    next
      case d: (Inr d)
      with Pair Inr u l2 data [OF d] show ?thesis
        by (simp add: updateProduct_def split_beta Let_def ledger_extends_iff
            addStockMovement_ledger ledger_arithmetic_def)
    qed
  qed
qed

lemma depotRecordConsumption_rows:
  "ledger_extends
     (\<lambda>r. ledger_arithmetic r \<and> transaction_ref r = ''CON-'' @ decimal now)
     s (snd (depotRecordConsumption f_update f_ledger now product qty user s))"
proof (cases "update_product_stock f_update (id_p product) (stock product - qty) s")
  case (Pair res s1)
  then have l: "stock_movements s1 = stock_movements s"
    using primitives_keep_ledger(5) [of f_update "id_p product" "stock product - qty" s] by simp
  with Pair show ?thesis
    by (cases res)
      (simp_all add: depotRecordConsumption_def split_beta Let_def ledger_extends_iff
        addStockMovement_ledger ledger_arithmetic_def)
qed

lemma adminCreateMovement_rows:
  "ledger_extends
     (\<lambda>r. ledger_arithmetic r \<and>
          transaction_ref r = (if movementType = admin_entry then ''ENT-'' else ''SOR-'') @ decimal now)
     s (snd (adminCreateMovement f_fetch f_update f_ledger now pid qty movementType adminUser s))"
proof (cases "select_product_by_id f_fetch pid s")
  case (Pair res s1)
  then have l: "stock_movements s1 = stock_movements s"
    using primitives_keep_ledger(1) [of f_fetch pid s] by simp
  show ?thesis
  proof (cases res)
    case (Inl e)
    with Pair l show ?thesis by (simp add: adminCreateMovement_def ledger_extends_same)
  next
    case (Inr found)
    define n where "n = stock found + (if movementType = admin_entry then qty else - qty)"
    obtain res2 s2 where u: "update_product_stock f_update pid n s1 = (res2, s2)"
      by (cases "update_product_stock f_update pid n s1")
    then have l2: "stock_movements s2 = stock_movements s"
      using primitives_keep_ledger(5) [of f_update pid n s1] l by simp
    from Pair Inr u l l2 show ?thesis
      by (cases res2; cases movementType)
        (simp_all add: adminCreateMovement_def n_def split_beta Let_def ledger_extends_iff
          addStockMovement_ledger ledger_arithmetic_def)
  qed
qed


section \<open>What the chains add to the ledger\<close>

lemma observe_simps [simp]:
  "db (observe j p) = db p"
  "chains (observe j p) = chains p"
  by (simp_all add: observe_def)

lemma approve_item_step_rows:
  "ledger_extends
     (\<lambda>r. ledger_arithmetic r \<and> transaction_ref r = tref \<and> change_type r = Submission)
     s (snd (approve_item_step adminUser tref flt item c s))"
proof (cases c)
  case (Waiting rq)
  then show ?thesis
  proof (cases rq)
    case SelectStock
    have "stock_movements (snd (approve_item_step adminUser tref flt item c s)) = stock_movements s"
      using Waiting SelectStock primitives_keep_ledger(1) [of "f_select flt" "productId item" s]
      by (cases "select_product_by_id (f_select flt) (productId item) s")
        (auto simp: approve_item_step_def split: sum.splits)
    then show ?thesis by (rule ledger_extends_same)
  next
    case (WriteStock oldStock)
    have "stock_movements (snd (approve_item_step adminUser tref flt item c s)) = stock_movements s"
      using Waiting WriteStock
        primitives_keep_ledger(5) [of "f_write flt" "productId item" "quantity item" s]
      by (cases "update_product_stock (f_write flt) (productId item) (quantity item) s")
        (auto simp: approve_item_step_def Let_def split: option.splits)
    then show ?thesis by (rule ledger_extends_same)
  next
    case (LogMovement oldStock)
    with Waiting show ?thesis
      by (simp add: approve_item_step_def Let_def split_beta ledger_extends_iff
          addStockMovement_ledger ledger_arithmetic_def)
  qed
next
  case Fulfilled
  then show ?thesis by (simp add: approve_item_step_def ledger_extends_same)
next
  case (RejectedWith e)
  then show ?thesis by (simp add: approve_item_step_def ledger_extends_same)
qed

lemma approve_step_db:
  "db (approve_step adminUser tref flts its i p) =
     (if i < length its \<and> i < length (chains p)
      then snd (approve_item_step adminUser tref (flts i) (its ! i) (chains p ! i) (db p))
      else db p)"
  by (simp add: approve_step_def split_beta)

lemma approve_step_chains:
  "chains (approve_step adminUser tref flts its i p) =
     (if i < length its \<and> i < length (chains p)
      then (chains p)[i := fst (approve_item_step adminUser tref (flts i) (its ! i) (chains p ! i) (db p))]
      else chains p)"
  by (simp add: approve_step_def split_beta)

lemma approve_chains_rows:
  "ledger_extends
     (\<lambda>r. ledger_arithmetic r \<and> transaction_ref r = tref \<and> change_type r = Submission)
     s (db (approve_chains schedule adminUser tref flts its s))"
  unfolding approve_chains_def
proof (rule fold_invariant)
  show "ledger_extends
     (\<lambda>r. ledger_arithmetic r \<and> transaction_ref r = tref \<and> change_type r = Submission)
     s (db \<lparr>db = s, chains = map (\<lambda>item. Waiting SelectStock) its, all_rejected = None\<rparr>)"
    by (simp add: ledger_extends_same)
next
  fix i and q :: "approve_request pool"
  assume "ledger_extends
     (\<lambda>r. ledger_arithmetic r \<and> transaction_ref r = tref \<and> change_type r = Submission)
     s (db q)"
  then show "ledger_extends
     (\<lambda>r. ledger_arithmetic r \<and> transaction_ref r = tref \<and> change_type r = Submission)
     s (db (approve_step adminUser tref flts its i q))"
    by (auto simp: approve_step_db intro: ledger_extends_trans approve_item_step_rows)
qed

lemma approveSubmission_ledger:
  "stock_movements (snd (approveSubmission schedule flts now sub adminUser s)) =
     (case f_status flts of
        Some e \<Rightarrow> stock_movements s
      | None \<Rightarrow> stock_movements (db (approve_chains schedule adminUser (''INV-'' @ decimal now)
          (f_item flts) (items sub)
          (snd (updateSubmissionStatus None (id_s sub) approved s)))))"
  by (simp add: approveSubmission_def updateSubmissionStatus_def Let_def split_beta
      split: option.splits)

lemma approveSubmission_rows:
  "ledger_extends
     (\<lambda>r. ledger_arithmetic r \<and> transaction_ref r = ''INV-'' @ decimal now \<and>
          change_type r = Submission)
     s (snd (approveSubmission schedule flts now sub adminUser s))"
proof (cases "f_status flts")
  case None
  let ?s1 = "snd (updateSubmissionStatus None (id_s sub) approved s)"
  have "ledger_extends
     (\<lambda>r. ledger_arithmetic r \<and> transaction_ref r = ''INV-'' @ decimal now \<and>
          change_type r = Submission)
     ?s1 (db (approve_chains schedule adminUser (''INV-'' @ decimal now) (f_item flts) (items sub) ?s1))"
    by (rule approve_chains_rows)
  then show ?thesis
    using None by (simp add: ledger_extends_iff approveSubmission_ledger)
next
  case (Some e)
  then show ?thesis by (simp add: ledger_extends_same approveSubmission_ledger)
qed

lemma inventory_item_step_ledger:
  "stock_movements (snd (inventory_item_step adminUser tref depot flt item c s)) =
     stock_movements s @
       (case c of Waiting (LogRow m) \<Rightarrow> if g_log flt = None then [m] else [] | _ \<Rightarrow> [])"
proof (cases c)
  case (Waiting rq)
  then show ?thesis
  proof (cases rq)
    case FindExisting
    show ?thesis
      using Waiting FindExisting
        primitives_keep_ledger(2) [of "g_find flt" "code_p (fst item)" depot s]
      by (cases "select_product_by_code_location (g_find flt) (code_p (fst item)) depot s")
        (auto simp: inventory_item_step_def Let_def split: sum.splits)
  next
    case (WriteCount existingProduct)
    show ?thesis
      using Waiting WriteCount
        primitives_keep_ledger(5) [of "g_write flt" "id_p existingProduct" "snd item" s]
      by (simp add: inventory_item_step_def Let_def split_beta)
  next
    case CreateProduct
    show ?thesis
      using Waiting CreateProduct
        primitives_keep_ledger(3) [of "g_write flt"
          "(fst item)\<lparr>location := depot, stock := snd item, imageUrl := None, safetySheetUrl := None\<rparr>" s]
      by (cases "insert_product (g_write flt)
            ((fst item)\<lparr>location := depot, stock := snd item, imageUrl := None, safetySheetUrl := None\<rparr>) s")
        (auto simp: inventory_item_step_def Let_def split: sum.splits)
  next
    case (LogRow m)
    with Waiting show ?thesis
      by (simp add: inventory_item_step_def Let_def split_beta addStockMovement_ledger)
  qed
next
  case Fulfilled
  then show ?thesis by (simp add: inventory_item_step_def)
next
  case (RejectedWith e)
  then show ?thesis by (simp add: inventory_item_step_def)
qed

lemma inventory_item_step_next_row:
  assumes "fst (inventory_item_step adminUser tref depot flt item c s) = Waiting (LogRow m)"
  shows "ledger_arithmetic m \<and> transaction_ref m = tref"
proof (cases c)
  case (Waiting rq)
  then show ?thesis
  proof (cases rq)
    case FindExisting
    with Waiting assms show ?thesis
      by (cases "select_product_by_code_location (g_find flt) (code_p (fst item)) depot s")
        (auto simp: inventory_item_step_def Let_def split: sum.splits if_splits)
  next
    case (WriteCount existingProduct)
    with Waiting assms show ?thesis
      by (auto simp: inventory_item_step_def Let_def split_beta ledger_arithmetic_def)
  next
    case CreateProduct
    with Waiting assms show ?thesis
      by (cases "insert_product (g_write flt)
            ((fst item)\<lparr>location := depot, stock := snd item, imageUrl := None, safetySheetUrl := None\<rparr>) s")
        (auto simp: inventory_item_step_def Let_def ledger_arithmetic_def split: sum.splits)
  next
    case (LogRow m')
    with Waiting assms show ?thesis
      by (simp add: inventory_item_step_def Let_def split_beta)
  qed
next
  case Fulfilled
  with assms show ?thesis by (simp add: inventory_item_step_def)
next
  case (RejectedWith e)
  with assms show ?thesis by (simp add: inventory_item_step_def)
qed

lemma inventory_step_db:
  "db (inventory_step adminUser tref depot flts inventory i p) =
     (if i < length inventory \<and> i < length (chains p) \<and>
         (if chains p ! i = Waiting FindExisting then looked_up (take i (chains p)) else True)
      then snd (inventory_item_step adminUser tref depot (flts i) (inventory ! i) (chains p ! i) (db p))
      else db p)"
  by (auto simp: inventory_step_def split_beta Let_def)

lemma inventory_step_chains:
  "chains (inventory_step adminUser tref depot flts inventory i p) =
     (if i < length inventory \<and> i < length (chains p) \<and>
         (if chains p ! i = Waiting FindExisting then looked_up (take i (chains p)) else True)
      then (chains p)[i := fst (inventory_item_step adminUser tref depot (flts i) (inventory ! i)
                                  (chains p ! i) (db p))]
      else chains p)"
  by (auto simp: inventory_step_def split_beta Let_def)

lemma inventory_chains_rows:
  "ledger_extends (\<lambda>r. ledger_arithmetic r \<and> transaction_ref r = tref)
     s (db (inventory_chains schedule adminUser tref depot flts inventory s))"
proof -
  let ?P = "\<lambda>r. ledger_arithmetic r \<and> transaction_ref r = tref"
  let ?I = "\<lambda>p. ledger_extends ?P s (db p) \<and>
                (\<forall>m. Waiting (LogRow m) \<in> set (chains p) \<longrightarrow> ?P m)"
  have "?I (inventory_chains schedule adminUser tref depot flts inventory s)"
    unfolding inventory_chains_def
  proof (rule fold_invariant [where I = ?I])
    show "?I \<lparr>db = s, chains = map (\<lambda>item. Waiting FindExisting) inventory, all_rejected = None\<rparr>"
      by (auto simp: ledger_extends_same)
  next
    fix i and q :: "inventory_request pool"
    assume inv: "?I q"
    let ?q' = "inventory_step adminUser tref depot flts inventory i q"
    show "?I ?q'"
    proof (cases "i < length inventory \<and> i < length (chains q) \<and>
         (if chains q ! i = Waiting FindExisting then looked_up (take i (chains q)) else True)")
      case False
      then have "?q' = q" by (auto simp: inventory_step_def)
      with inv show ?thesis by simp
    next
      case True
      let ?st = "inventory_item_step adminUser tref depot (flts i) (inventory ! i) (chains q ! i) (db q)"
      have db': "db ?q' = snd ?st" and ch': "chains ?q' = (chains q)[i := fst ?st]"
        using True by (simp_all add: inventory_step_db inventory_step_chains)
      have mem: "chains q ! i \<in> set (chains q)" using True by simp
      have step: "ledger_extends ?P (db q) (snd ?st)"
      proof (cases "\<exists>m. chains q ! i = Waiting (LogRow m)")
        case True
        then obtain m where m: "chains q ! i = Waiting (LogRow m)" by blast
        with mem inv have "?P m" by metis
        with m show ?thesis
          by (simp add: ledger_extends_iff inventory_item_step_ledger)
      next
        case False
        then have "stock_movements (snd ?st) = stock_movements (db q)"
          by (simp add: inventory_item_step_ledger split: promise.splits inventory_request.splits)
        then show ?thesis by (rule ledger_extends_same)
      qed
      have rows: "\<forall>m. Waiting (LogRow m) \<in> set (chains ?q') \<longrightarrow> ?P m"
      proof (intro allI impI)
        fix m assume "Waiting (LogRow m) \<in> set (chains ?q')"
        then have "Waiting (LogRow m) \<in> insert (fst ?st) (set (chains q))"
          using set_update_subset_insert [of "chains q" i "fst ?st"] ch' by auto
        then show "?P m"
          using inv inventory_item_step_next_row [of adminUser tref depot "flts i" "inventory ! i"
              "chains q ! i" "db q" m]
          by auto
      qed
      from inv step have "ledger_extends ?P s (snd ?st)"
        by (blast intro: ledger_extends_trans)
      with rows db' show ?thesis by simp
    qed
  qed
  then show ?thesis by simp
qed

lemma setDepotInventory_rows:
  "ledger_extends (\<lambda>r. ledger_arithmetic r \<and> transaction_ref r = ''INV-'' @ decimal now)
     s (snd (setDepotInventory schedule flts now depot inventory adminUser s))"
  by (simp add: setDepotInventory_def Let_def inventory_chains_rows)


section \<open>Every chain settles\<close>

text \<open>
  One pass over the chains in list order lets every chain that is still waiting send
  one request; three passes settle them all. The statement is about any step function
  that changes only the chain it is asked to advance.
\<close>

lemma pass_lowers_rank:
  fixes f :: "nat \<Rightarrow> 'a pool \<Rightarrow> 'a pool" and rk :: "'a promise \<Rightarrow> nat"
  assumes len: "\<And>i p. length (chains (f i p)) = length (chains p)"
    and other: "\<And>i k p. k \<noteq> i \<Longrightarrow> chains (f i p) ! k = chains p ! k"
    and own: "\<And>i p. length (chains p) = n \<Longrightarrow> i < n \<Longrightarrow> \<forall>j<i. rk (chains p ! j) < 3 \<Longrightarrow>
                rk (chains (f i p) ! i) \<le> rk (chains p ! i) - 1"
    and bound: "\<And>c. rk c \<le> 3"
    and n: "length (chains p) = n"
    and k: "k \<le> n"
  shows "length (chains (fold f [0..<k] p)) = n \<and>
         (\<forall>j<k. rk (chains (fold f [0..<k] p) ! j) \<le> rk (chains p ! j) - 1) \<and>
         (\<forall>j\<ge>k. chains (fold f [0..<k] p) ! j = chains p ! j)"
  using k
proof (induction k)
  case 0
  then show ?case by (simp add: n)
next
  case (Suc k)
  let ?q = "fold f [0..<k] p"
  from Suc have IH: "length (chains ?q) = n"
    "\<forall>j<k. rk (chains ?q ! j) \<le> rk (chains p ! j) - 1"
    "\<forall>j\<ge>k. chains ?q ! j = chains p ! j"
    by simp_all
  have step: "fold f [0..<Suc k] p = f k ?q" by simp
  have low: "\<forall>j<k. rk (chains ?q ! j) < 3"
  proof (intro allI impI)
    fix j assume "j < k"
    with IH(2) have "rk (chains ?q ! j) \<le> rk (chains p ! j) - 1" by simp
    moreover have "rk (chains p ! j) \<le> 3" by (rule bound)
    ultimately show "rk (chains ?q ! j) < 3" by simp
  qed
  have "k < n" using Suc.prems by simp
  from own [OF IH(1) this low] IH(3)
  have k': "rk (chains (f k ?q) ! k) \<le> rk (chains p ! k) - 1" by simp
  show ?case
  proof (intro conjI allI impI)
    show "length (chains (fold f [0..<Suc k] p)) = n"
      by (simp add: len IH(1))
  next
    fix j assume "j < Suc k"
    show "rk (chains (fold f [0..<Suc k] p) ! j) \<le> rk (chains p ! j) - 1"
    proof (cases "j = k")
      case True
      with k' step show ?thesis by simp
    next
      case False
      with \<open>j < Suc k\<close> have "j < k" by simp
      with IH(2) other [of j k ?q] False step show ?thesis by simp
    qed
  next
    fix j assume "Suc k \<le> j"
    then have "j \<noteq> k" "k \<le> j" by simp_all
    with IH(3) other [of j k ?q] step
    show "chains (fold f [0..<Suc k] p) ! j = chains p ! j" by simp
  qed
qed

lemma settle_settles:
  fixes f :: "nat \<Rightarrow> 'a pool \<Rightarrow> 'a pool" and rk :: "'a promise \<Rightarrow> nat"
  assumes len: "\<And>i p. length (chains (f i p)) = length (chains p)"
    and other: "\<And>i k p. k \<noteq> i \<Longrightarrow> chains (f i p) ! k = chains p ! k"
    and own: "\<And>i p. length (chains p) = n \<Longrightarrow> i < n \<Longrightarrow> \<forall>j<i. rk (chains p ! j) < 3 \<Longrightarrow>
                rk (chains (f i p) ! i) \<le> rk (chains p ! i) - 1"
    and bound: "\<And>c. rk c \<le> 3"
    and n: "length (chains p) = n"
    and j: "j < n"
  shows "rk (chains (fold f (settle n) p) ! j) = 0"
proof -
  let ?p1 = "fold f [0..<n] p"
  let ?p2 = "fold f [0..<n] ?p1"
  let ?p3 = "fold f [0..<n] ?p2"
  have s: "fold f (settle n) p = ?p3"
    by (simp add: settle_def numeral_3_eq_3)
  have pass: "length (chains (fold f [0..<n] q)) = n \<and>
         (\<forall>j<n. rk (chains (fold f [0..<n] q) ! j) \<le> rk (chains q ! j) - 1) \<and>
         (\<forall>j\<ge>n. chains (fold f [0..<n] q) ! j = chains q ! j)"
    if "length (chains q) = n" for q
    apply (rule pass_lowers_rank [where f = f and rk = rk and n = n and k = n and p = q])
         apply (rule len)
        apply (rule other, assumption)
       apply (rule own; assumption)
      apply (rule bound)
     apply (rule that)
    apply simp
    done
  have p1: "length (chains ?p1) = n" "rk (chains ?p1 ! j) \<le> rk (chains p ! j) - 1"
    using pass [OF n] j by simp_all
  have p2: "length (chains ?p2) = n" "rk (chains ?p2 ! j) \<le> rk (chains ?p1 ! j) - 1"
    using pass [OF p1(1)] j by simp_all
  have p3: "rk (chains ?p3 ! j) \<le> rk (chains ?p2 ! j) - 1"
    using pass [OF p2(1)] j by simp
  have "rk (chains p ! j) \<le> 3" by (rule bound)
  with p1(2) p2(2) p3 have "rk (chains ?p3 ! j) = 0" by simp
  with s show ?thesis by simp
qed


section \<open>The chains of an approval\<close>

lemma approve_step_length [simp]:
  "length (chains (approve_step adminUser tref flts its i p)) = length (chains p)"
  by (simp add: approve_step_chains)








lemma appended_same [simp]: "appended s s = []"
  by (simp add: appended_def)




lemma product_rows_received [simp]: "product_rows pid (received r s) = product_rows pid s"
  by (simp add: product_rows_def)






lemma approve_item_step_rejected [simp]:
  "approve_item_step adminUser tref flt item (RejectedWith e) s = (RejectedWith e, s)"
  by (simp add: approve_item_step_def)



lemma status_update_tables [simp]:
  "products (snd (updateSubmissionStatus flt sid st s)) = products s"
  "product_rows pid (snd (updateSubmissionStatus flt sid st s)) = product_rows pid s"
  "appended s0 (snd (updateSubmissionStatus flt sid st s)) = appended s0 s"
  "appended (snd (updateSubmissionStatus flt sid st s)) s' = appended s s'"
  "ledger_rows_of pid s0 (snd (updateSubmissionStatus flt sid st s)) = ledger_rows_of pid s0 s"
  "ledger_rows_of pid (snd (updateSubmissionStatus flt sid st s)) s' = ledger_rows_of pid s s'"
  by (simp_all add: updateSubmissionStatus_def product_rows_def appended_def ledger_rows_of_def
      split: option.splits)











section \<open>Editing a product\<close>




section \<open>A ledger insert that fails\<close>

text \<open>
  C10. In \<open>depotRecordConsumption\<close> and in \<open>adminCreateMovement\<close>, when the stock write
  succeeds and the ledger insert that follows returns an error, the function still
  returns no error: the stock of the product is changed, the ledger has no new row, and
  the caller is told that all went well.
\<close>

theorem ledger_failure_is_not_reported:
  "(0 \<le> stock product - qty \<longrightarrow>
      (let (err, s') = depotRecordConsumption None (Some e) now product qty user s
       in err = None \<and> stock_movements s' = stock_movements s \<and>
          products s' =
            map (\<lambda>q. if id_p q = id_p product then q\<lparr>stock := stock product - qty\<rparr> else q)
              (products s)))
   \<and> (filter (\<lambda>p. id_p p = pid) (products s) = [found] \<and>
        0 \<le> stock found + (if movementType = admin_entry then qty else - qty) \<longrightarrow>
      (let (err, s') = adminCreateMovement None None (Some e) now pid qty movementType user s
       in err = None \<and> stock_movements s' = stock_movements s \<and>
          products s' =
            map (\<lambda>q. if id_p q = pid
                      then q\<lparr>stock := stock found + (if movementType = admin_entry then qty else - qty)\<rparr>
                      else q)
              (products s)))"
proof (intro conjI impI)
  assume "0 \<le> stock product - qty"
  then show "let (err, s') = depotRecordConsumption None (Some e) now product qty user s
       in err = None \<and> stock_movements s' = stock_movements s \<and>
          products s' =
            map (\<lambda>q. if id_p q = id_p product then q\<lparr>stock := stock product - qty\<rparr> else q)
              (products s)"
    by (simp add: depotRecordConsumption_def Let_def update_stock_ok ledger_fault_keeps_store)
next
  assume a: "filter (\<lambda>p. id_p p = pid) (products s) = [found] \<and>
        0 \<le> stock found + (if movementType = admin_entry then qty else - qty)"
  then have sel: "select_product_by_id None pid s = (Inr found, received (SelectProductById pid) s)"
    by (simp add: select_by_id_found)
  from a show "let (err, s') = adminCreateMovement None None (Some e) now pid qty movementType user s
       in err = None \<and> stock_movements s' = stock_movements s \<and>
          products s' =
            map (\<lambda>q. if id_p q = pid
                      then q\<lparr>stock := stock found + (if movementType = admin_entry then qty else - qty)\<rparr>
                      else q)
              (products s)"
    by (simp add: adminCreateMovement_def sel Let_def update_stock_ok ledger_fault_keeps_store)
qed

text \<open>Three litres leave a stock of seven while the ledger is unreachable.\<close>

theorem ledger_failure_is_not_reported_witness:
  "fst (depotRecordConsumption None (Some net_down) 42 ethanol 3 ada lab) = None
   \<and> stock_movements (snd (depotRecordConsumption None (Some net_down) 42 ethanol 3 ada lab)) = []
   \<and> map stock (products (snd (depotRecordConsumption None (Some net_down) 42 ethanol 3 ada lab))) = [4]
   \<and> fst (adminCreateMovement None None (Some net_down) 42 1 3 admin_exit ada lab) = None
   \<and> stock_movements (snd (adminCreateMovement None None (Some net_down) 42 1 3 admin_exit ada lab)) = []
   \<and> map stock (products (snd (adminCreateMovement None None (Some net_down) 42 1 3 admin_exit ada lab))) = [4]"
proof -
  have h1: "0 \<le> stock ethanol - 3" by (simp add: ethanol_def)
  have h2: "filter (\<lambda>p. id_p p = 1) (products lab) = [ethanol] \<and>
        0 \<le> stock ethanol + (if admin_exit = admin_entry then 3 else - 3)"
    by (simp add: lab_def ethanol_def)
  show ?thesis
    using ledger_failure_is_not_reported
       [of ethanol 3 net_down 42 ada lab 1 ethanol admin_exit]
      h1 h2
    by (simp add: split_beta lab_def ethanol_def)
qed


section \<open>Approval: the status update fails\<close>

text \<open>
  C5. When the first request of \<open>approveSubmission\<close>, the update of the status to
  \<open>approved\<close>, fails, the error of that request is returned at once: the store has
  received this one request and nothing else, so no stock is written and no ledger row
  is appended, and all tables, the submission's status among them, are as before.
\<close>

theorem approve_status_failure:
  "approveSubmission schedule (flts\<lparr>f_status := Some e\<rparr>) now sub adminUser s =
     (Some e, s\<lparr>requests := requests s @ [UpdateSubmissionStatus (id_s sub) approved]\<rparr>)"
  by (simp add: approveSubmission_def updateSubmissionStatus_def received_def)


section \<open>A negative stock\<close>

text \<open>
  C1. \<open>updateProduct\<close> does not check the sign of the stock it is given. Editing the
  product of stock 7 to a stock of -5 is accepted: the call returns the row, the product
  table holds -5 and the ledger records the new level -5, whereas
  \<open>depotRecordConsumption\<close> and \<open>adminCreateMovement\<close> refuse a negative result.
\<close>

theorem updateProduct_accepts_negative_stock:
  "fst (updateProduct None None None 42 (ethanol\<lparr>stock := - 5\<rparr>) ada lab) = Inr (ethanol\<lparr>stock := - 5\<rparr>)
   \<and> map stock (products (snd (updateProduct None None None 42 (ethanol\<lparr>stock := - 5\<rparr>) ada lab))) = [- 5]
   \<and> map new_stock_level (stock_movements (snd (updateProduct None None None 42 (ethanol\<lparr>stock := - 5\<rparr>) ada lab))) = [- 5]"
  by code_simp


section \<open>Ledger arithmetic\<close>





section \<open>Transaction references\<close>

text \<open>
  C7. The reference of every ledger row that an operation writes is its three-letter
  prefix in upper case, a hyphen and the clock value in decimal (lemma
  \<open>decimal_denotes\<close>): \<^verbatim>\<open>CRE\<close> for a creation, \<^verbatim>\<open>MAJ\<close> for an edit, \<^verbatim>\<open>CON\<close> for a
  consumption, \<^verbatim>\<open>ENT\<close> and \<^verbatim>\<open>SOR\<close> for an admin entry and exit, \<^verbatim>\<open>INV\<close> for an approval
  and for a bulk inventory. All rows written by one call of \<open>approveSubmission\<close> carry
  the same reference, the one generated before the chains start.
\<close>

theorem transaction_refs:
  "ledger_extends (\<lambda>r. transaction_ref r = ''CRE-'' @ decimal now) s
       (snd (addProduct f_insert f_ledger now product user s))
   \<and> ledger_extends (\<lambda>r. transaction_ref r = ''MAJ-'' @ decimal now) s
        (snd (updateProduct f_fetch f_update f_ledger now product user s))
   \<and> ledger_extends (\<lambda>r. transaction_ref r = ''CON-'' @ decimal now) s
        (snd (depotRecordConsumption f_update f_ledger now product qty user s))
   \<and> ledger_extends (\<lambda>r. transaction_ref r = ''ENT-'' @ decimal now) s
        (snd (adminCreateMovement f_fetch f_update f_ledger now pid qty admin_entry user s))
   \<and> ledger_extends (\<lambda>r. transaction_ref r = ''SOR-'' @ decimal now) s
        (snd (adminCreateMovement f_fetch f_update f_ledger now pid qty admin_exit user s))
   \<and> ledger_extends (\<lambda>r. transaction_ref r = ''INV-'' @ decimal now) s
        (snd (approveSubmission schedule flts now sub user s))
   \<and> ledger_extends (\<lambda>r. transaction_ref r = ''INV-'' @ decimal now) s
        (snd (setDepotInventory schedule pflts now depot inventory user s))"
proof (intro conjI)
  show "ledger_extends (\<lambda>r. transaction_ref r = ''CRE-'' @ decimal now) s
       (snd (addProduct f_insert f_ledger now product user s))"
    by (rule ledger_extends_mono [OF addProduct_rows]) simp
  show "ledger_extends (\<lambda>r. transaction_ref r = ''MAJ-'' @ decimal now) s
        (snd (updateProduct f_fetch f_update f_ledger now product user s))"
    by (rule ledger_extends_mono [OF updateProduct_rows]) simp
  show "ledger_extends (\<lambda>r. transaction_ref r = ''CON-'' @ decimal now) s
        (snd (depotRecordConsumption f_update f_ledger now product qty user s))"
    by (rule ledger_extends_mono [OF depotRecordConsumption_rows]) simp
  show "ledger_extends (\<lambda>r. transaction_ref r = ''ENT-'' @ decimal now) s
        (snd (adminCreateMovement f_fetch f_update f_ledger now pid qty admin_entry user s))"
    by (rule ledger_extends_mono [OF adminCreateMovement_rows]) simp
  show "ledger_extends (\<lambda>r. transaction_ref r = ''SOR-'' @ decimal now) s
        (snd (adminCreateMovement f_fetch f_update f_ledger now pid qty admin_exit user s))"
    by (rule ledger_extends_mono [OF adminCreateMovement_rows]) simp
  show "ledger_extends (\<lambda>r. transaction_ref r = ''INV-'' @ decimal now) s
        (snd (approveSubmission schedule flts now sub user s))"
    by (rule ledger_extends_mono [OF approveSubmission_rows]) simp
  show "ledger_extends (\<lambda>r. transaction_ref r = ''INV-'' @ decimal now) s
        (snd (setDepotInventory schedule pflts now depot inventory user s))"
    by (rule ledger_extends_mono [OF setDepotInventory_rows]) simp
qed

text \<open>The row of an approval at clock value 42.\<close>

theorem transaction_refs_witness:
  "ledger_extends (\<lambda>r. transaction_ref r = ''INV-'' @ decimal 42) lab
     (snd (approveSubmission [] no_approve_faults 42 count_15 ada lab))
   \<and> map transaction_ref
       (appended lab
          (snd (approveSubmission [] no_approve_faults 42 count_15 ada lab))) =
     [''INV-42'']"
proof -
  have a: "ledger_extends (\<lambda>r. transaction_ref r = ''INV-'' @ decimal 42) lab
     (snd (approveSubmission [] no_approve_faults 42 count_15 ada lab))"
    by (rule transaction_refs [where now = 42 and s = lab and user = ada
          and schedule = "[]" and flts = no_approve_faults and sub = count_15,
          THEN conjunct2, THEN conjunct2, THEN conjunct2, THEN conjunct2, THEN conjunct2,
          THEN conjunct1])
  have b: "map transaction_ref
       (appended lab
          (snd (approveSubmission [] no_approve_faults 42 count_15 ada lab))) =
     [''INV-42'']"
    by code_simp
  from a b show ?thesis by simp
qed


section \<open>Approval replaces the stock\<close>




section \<open>Approval: an item fails\<close>





section \<open>Submitting an inventory\<close>





section \<open>The chains of a bulk inventory\<close>

lemma inventory_step_length [simp]:
  "length (chains (inventory_step adminUser tref depot flts inventory i p)) = length (chains p)"
  by (simp add: inventory_step_chains)

lemma inventory_step_other:
  "k \<noteq> i \<Longrightarrow> chains (inventory_step adminUser tref depot flts inventory i p) ! k = chains p ! k"
  by (simp add: inventory_step_chains)

lemma inventory_step_unchanged:
  "\<not> (i < length inventory \<and> i < length (chains p) \<and>
       (if chains p ! i = Waiting FindExisting then looked_up (take i (chains p)) else True)) \<Longrightarrow>
   inventory_step adminUser tref depot flts inventory i p = p"
  by (auto simp: inventory_step_def)

lemma inventory_item_step_rank:
  "inventory_rank (fst (inventory_item_step adminUser tref depot flt item c s)) \<le> inventory_rank c - 1"
proof (cases c)
  case (Waiting rq)
  then show ?thesis
    by (cases rq)
      (auto simp: inventory_item_step_def Let_def split_beta
        split: prod.splits sum.splits option.splits)
next
  case Fulfilled
  then show ?thesis by (simp add: inventory_item_step_def)
next
  case (RejectedWith e)
  then show ?thesis by (simp add: inventory_item_step_def)
qed

lemma inventory_rank_0: "inventory_rank c = 0 \<longleftrightarrow> c = Fulfilled \<or> (\<exists>e. c = RejectedWith e)"
proof (cases c)
  case (Waiting rq)
  then show ?thesis by (cases rq) simp_all
qed simp_all

lemma inventory_rank_3: "inventory_rank c < 3 \<longleftrightarrow> c \<noteq> Waiting FindExisting"
proof (cases c)
  case (Waiting rq)
  then show ?thesis by (cases rq) simp_all
qed simp_all

lemma inventory_rank_bound: "inventory_rank c \<le> 3"
proof (cases c)
  case (Waiting rq)
  then show ?thesis by (cases rq) simp_all
qed simp_all

lemma inventory_chains_split:
  "inventory_chains schedule adminUser tref depot flts inventory s =
     fold (inventory_step adminUser tref depot flts inventory) (settle (length inventory))
       (fold (inventory_step adminUser tref depot flts inventory) schedule
          \<lparr>db = s, chains = map (\<lambda>item. Waiting FindExisting) inventory, all_rejected = None\<rparr>)"
  by (simp add: inventory_chains_def)

lemma inventory_chains_settled:
  assumes "j < length inventory"
  shows "inventory_rank (chains (inventory_chains schedule adminUser tref depot flts inventory s) ! j) = 0"
proof -
  let ?f = "inventory_step adminUser tref depot flts inventory"
  let ?p = "fold ?f schedule
          \<lparr>db = s, chains = map (\<lambda>item. Waiting FindExisting) inventory, all_rejected = None\<rparr>"
  have n: "length (chains ?p) = length inventory"
    by (rule fold_invariant) simp_all
  have "inventory_rank (chains (fold ?f (settle (length inventory)) ?p) ! j) = 0"
  proof (rule settle_settles [where rk = inventory_rank and n = "length inventory"])
    show "\<And>i p. length (chains (?f i p)) = length (chains p)" by simp
    show "\<And>i k p. k \<noteq> i \<Longrightarrow> chains (?f i p) ! k = chains p ! k"
      by (rule inventory_step_other)
    show "\<And>c. inventory_rank c \<le> 3" by (rule inventory_rank_bound)
    show "length (chains ?p) = length inventory" by (rule n)
    show "j < length inventory" by (rule assms)
  next
    fix i and p :: "inventory_request pool"
    assume len: "length (chains p) = length inventory" and i: "i < length inventory"
      and low: "\<forall>j<i. inventory_rank (chains p ! j) < 3"
    have "looked_up (take i (chains p))"
      unfolding looked_up_def list_all_iff
    proof
      fix c assume "c \<in> set (take i (chains p))"
      then obtain j where "j < i" "j < length (chains p)" "c = chains p ! j"
        by (auto simp: in_set_conv_nth)
      with low show "c \<noteq> Waiting FindExisting" by (auto simp: inventory_rank_3)
    qed
    then show "inventory_rank (chains (?f i p) ! i) \<le> inventory_rank (chains p ! i) - 1"
      using inventory_item_step_rank [of adminUser tref depot "flts i" "inventory ! i"
          "chains p ! i" "db p"] len i
      by (simp add: inventory_step_chains)
  qed
  then show ?thesis by (simp add: inventory_chains_split)
qed

lemma fresh_id_greater: "q \<in> set ps \<Longrightarrow> id_p q < fresh_id ps"
proof -
  have "x \<in> set xs \<Longrightarrow> x \<le> fold max xs a" for x :: nat and xs a
  proof (induction xs arbitrary: a)
    case Nil
    then show ?case by simp
  next
    case (Cons y ys)
    have mono: "a \<le> fold max ys a" for a :: nat
      by (induction ys arbitrary: a) (auto intro: order_trans [OF max.cobounded2])
    from Cons show ?case
    proof (cases "x = y")
      case True
      have "y \<le> max y a" by simp
      also have "\<dots> \<le> fold max ys (max y a)" by (rule mono)
      finally show ?thesis using True by simp
    next
      case False
      with Cons show ?thesis by simp
    qed
  qed
  from this [of "id_p q" "map id_p ps" 0] show "q \<in> set ps \<Longrightarrow> id_p q < fresh_id ps"
    by (simp add: fresh_id_def less_Suc_eq_le)
qed

lemma single_Inr: "single xs = Inr x \<Longrightarrow> xs = [x]"
  by (auto simp: single_def split: list.splits)

lemma single_Inl: "single xs = Inl e \<Longrightarrow> e = PostgrestError ''PGRST116''"
  by (auto simp: single_def split: list.splits)

text \<open>The products after one request of a pair's chain.\<close>

lemma inventory_item_step_products:
  "products (snd (inventory_item_step adminUser tref depot flt item c s)) =
     (case c of
        Waiting (WriteCount e) \<Rightarrow>
          if g_write flt = None
          then map (\<lambda>q. if id_p q = id_p e then q\<lparr>stock := snd item\<rparr> else q) (products s)
          else products s
      | Waiting CreateProduct \<Rightarrow>
          if g_write flt = None
          then products s @ [new_product_row (fst item) depot (snd item) (fresh_id (products s))]
          else products s
      | _ \<Rightarrow> products s)"
proof (cases c)
  case (Waiting rq)
  then show ?thesis
  proof (cases rq)
    case FindExisting
    with Waiting show ?thesis
      by (auto simp: inventory_item_step_def select_product_by_code_location_def Let_def
          split: option.splits sum.splits)
  next
    case (WriteCount e)
    with Waiting show ?thesis
      by (auto simp: inventory_item_step_def update_product_stock_def Let_def split_beta
          split: option.splits)
  next
    case CreateProduct
    with Waiting show ?thesis
      by (auto simp: inventory_item_step_def insert_product_def Let_def new_product_row_def
          split: option.splits)
  next
    case (LogRow m)
    with Waiting show ?thesis
      by (auto simp: inventory_item_step_def addStockMovement_def Let_def split_beta
          split: option.splits)
  qed
next
  case Fulfilled
  then show ?thesis by (simp add: inventory_item_step_def)
next
  case (RejectedWith e)
  then show ?thesis by (simp add: inventory_item_step_def)
qed

text \<open>The two ways in which the product table changes.\<close>

lemma elsewhere_map:
  assumes "\<And>q. id_p (g q) = id_p q" and "\<And>q. at_depot c depot (g q) = at_depot c depot q"
  shows "(\<exists>q\<in>set (map g ps). id_p q = x \<and> \<not> at_depot c depot q) \<longleftrightarrow>
         (\<exists>q\<in>set ps. id_p q = x \<and> \<not> at_depot c depot q)"
  by (simp add: assms)

lemma elsewhere_stock_update:
  "elsewhere c depot (s\<lparr>products := map (\<lambda>q. if id_p q = y then q\<lparr>stock := n\<rparr> else q) (products s)\<rparr>) x
     \<longleftrightarrow> elsewhere c depot s x"
proof -
  have sel: "products (s\<lparr>products := X\<rparr>) = X" for X by simp
  show ?thesis
    unfolding elsewhere_def sel
    by (rule elsewhere_map) (simp_all add: at_depot_def)
qed

lemma elsewhere_products:
  "products s' = products s \<Longrightarrow> elsewhere c depot s' x = elsewhere c depot s x"
  by (simp add: elsewhere_def)

lemma elsewhere_if_stock_update:
  assumes "products s' = map (\<lambda>q. if id_p q = y then q\<lparr>stock := n\<rparr> else q) (products s)"
  shows "elsewhere c depot s' x = elsewhere c depot s x"
proof -
  have "elsewhere c depot s' x =
        elsewhere c depot (s\<lparr>products := map (\<lambda>q. if id_p q = y then q\<lparr>stock := n\<rparr> else q) (products s)\<rparr>) x"
    by (rule elsewhere_products) (simp add: assms)
  then show ?thesis by (simp add: elsewhere_stock_update)
qed

lemma elsewhere_if_insert:
  assumes "products s' = products s @ [row]"
  shows "elsewhere c depot s' x \<longleftrightarrow> elsewhere c depot s x \<or> (id_p row = x \<and> \<not> at_depot c depot row)"
  using assms by (auto simp: elsewhere_def)

lemma ids_apart_map:
  assumes g: "\<And>q. id_p (g q) = id_p q" "\<And>q. at_depot c depot (g q) = at_depot c depot q"
    and apart: "\<forall>q\<in>set ps. \<forall>q'\<in>set ps.
        at_depot c depot q \<longrightarrow> \<not> at_depot c depot q' \<longrightarrow> id_p q \<noteq> id_p q'"
  shows "\<forall>q\<in>set (map g ps). \<forall>q'\<in>set (map g ps).
        at_depot c depot q \<longrightarrow> \<not> at_depot c depot q' \<longrightarrow> id_p q \<noteq> id_p q'"
  using apart by (simp add: g)

lemma ids_apart_if_stock_update:
  assumes "products s' = map (\<lambda>q. if id_p q = y then q\<lparr>stock := n\<rparr> else q) (products s)"
    and "ids_apart c depot s"
  shows "ids_apart c depot s'"
  unfolding ids_apart_def assms(1)
  by (rule ids_apart_map) (use assms(2) in \<open>simp_all add: at_depot_def ids_apart_def\<close>)

lemma ids_apart_if_insert:
  assumes "products s' = products s @ [row]" and "id_p row = fresh_id (products s)"
    and "ids_apart c depot s"
  shows "ids_apart c depot s'"
  unfolding ids_apart_def
proof (intro ballI impI)
  fix q q' assume q: "q \<in> set (products s')" "q' \<in> set (products s')"
    and a: "at_depot c depot q" "\<not> at_depot c depot q'"
  from q assms(1) have "q \<in> set (products s) \<or> q = row" "q' \<in> set (products s) \<or> q' = row"
    by auto
  then show "id_p q \<noteq> id_p q'"
  proof (elim disjE)
    assume "q \<in> set (products s)" "q' \<in> set (products s)"
    with a assms(3) show ?thesis by (auto simp: ids_apart_def)
  next
    assume "q \<in> set (products s)" "q' = row"
    with fresh_id_greater [of q "products s"] assms(2) show ?thesis by simp
  next
    assume "q = row" "q' \<in> set (products s)"
    with fresh_id_greater [of q' "products s"] assms(2) show ?thesis by simp
  next
    assume "q = row" "q' = row"
    with a show ?thesis by simp
  qed
qed

lemma depot_rows_if_stock_update:
  assumes "products s' = map (\<lambda>q. if id_p q = y then q\<lparr>stock := n\<rparr> else q) (products s)"
    and "ids_apart c depot s" and "elsewhere c depot s y"
  shows "depot_rows c depot s' = depot_rows c depot s"
proof -
  let ?f = "\<lambda>q. if id_p q = y then q\<lparr>stock := n\<rparr> else q"
  from assms(3) obtain q' where q': "q' \<in> set (products s)" "id_p q' = y" "\<not> at_depot c depot q'"
    by (auto simp: elsewhere_def)
  have keep: "q \<in> set (products s) \<Longrightarrow> at_depot c depot q \<Longrightarrow> ?f q = q" for q
    using assms(2) q' by (auto simp: ids_apart_def)
  have "filter (at_depot c depot) (map ?f ps) = filter (at_depot c depot) ps"
    if "set ps \<subseteq> set (products s)" for ps
    using that
  proof (induction ps)
    case Nil
    then show ?case by simp
  next
    case (Cons a ps)
    then have a: "a \<in> set (products s)" by simp
    have "at_depot c depot (?f a) = at_depot c depot a" by (simp add: at_depot_def)
    with Cons keep [OF a] show ?case by auto
  qed
  from this [of "products s"] assms(1) show ?thesis by (simp add: depot_rows_def)
qed

lemma depot_rows_if_insert:
  assumes "products s' = products s @ [row]"
  shows "depot_rows c depot s' = depot_rows c depot s @ (if at_depot c depot row then [row] else [])"
  using assms by (simp add: depot_rows_def)

end
